theory Spec2Isabelle
  imports Complex_Main "HOL-Library.AList"
begin

section \<open>JavaScript values, objects and the heap\<close>

text \<open>
  The entry points of \<^verbatim>\<open>src/index.js\<close> receive arbitrary JavaScript values and
  mutate the caller's price object in place, so values are modelled with an explicit
  heap. A value is a primitive or a reference to an object; an object is the list of
  its own enumerable string-keyed properties in the order \<^verbatim>\<open>Object.keys\<close> enumerates
  them (keys are distinct in a well-formed object); the heap is the list of allocated
  objects and a fresh object gets the next address. Arrays and functions are objects
  too (their enumerable own properties are what the code reads). Finite numbers are
  reals and \<open>JNaN\<close> is the not-a-number value; the code only copies numbers and tests
  them for truthiness. Strings are byte strings: identifiers are taken to be ASCII.
  Prototype chains, accessors, frozen objects and proxies are not modelled.

  The global object is kept apart from the heap: a \<open>world\<close> is the heap together
  with the own properties of the global object, which the code writes through an
  undeclared variable. The global object is not among the values a caller passes.
\<close>

type_synonym addr = nat

datatype jsval =
    JUndefined
  | JNull
  | JBool bool
  | JNum real
  | JNaN
  | JStr string
  | JRef addr

type_synonym obj = "(string \<times> jsval) list"

type_synonym heap = "obj list"

type_synonym world = "heap \<times> obj"

text \<open>What a call can throw: the two error classes of \<^verbatim>\<open>helper/errors\<close>, each carrying
  its message, and the engine's own \<^verbatim>\<open>TypeError\<close>.\<close>

datatype error =
    NetworthError string
  | PricesError string
  | TypeError

definition obj_at :: "heap \<Rightarrow> addr \<Rightarrow> obj" where
  "obj_at h a = (if a < length h then h ! a else [])"

fun truthy :: "jsval \<Rightarrow> bool" where
  "truthy JUndefined = False"
| "truthy JNull = False"
| "truthy (JBool b) = b"
| "truthy (JNum r) = (r \<noteq> 0)"
| "truthy JNaN = False"
| "truthy (JStr s) = (s \<noteq> [])"
| "truthy (JRef a) = True"

text \<open>The prefix operator \<^verbatim>\<open>!v\<close>: always a boolean.\<close>

definition js_not :: "jsval \<Rightarrow> jsval" where
  "js_not v = JBool (\<not> truthy v)"

text \<open>\<^verbatim>\<open>v instanceof Object\<close>: true of objects, false of every primitive.\<close>

fun instanceof_Object :: "jsval \<Rightarrow> bool" where
  "instanceof_Object (JRef a) = True"
| "instanceof_Object v = False"

fun nullish :: "jsval \<Rightarrow> bool" where
  "nullish JUndefined = True"
| "nullish JNull = True"
| "nullish v = False"

subsection \<open>Strings\<close>

definition lower_char :: "char \<Rightarrow> char" where
  "lower_char c =
     (case map_of (zip ''ABCDEFGHIJKLMNOPQRSTUVWXYZ'' ''abcdefghijklmnopqrstuvwxyz'') c of
        Some d \<Rightarrow> d
      | None \<Rightarrow> c)"

definition toLowerCase :: "string \<Rightarrow> string" where
  "toLowerCase s = map lower_char s"

text \<open>Decimal rendering of a non-negative integer, as string conversion of an array
  index or of a status code produces it.\<close>

fun dec :: "nat \<Rightarrow> string" where
  "dec n =
     (if n < 10 then [''0123456789'' ! n]
      else dec (n div 10) @ [''0123456789'' ! (n mod 10)])"

declare dec.simps [simp del]

subsection \<open>Property access\<close>

text \<open>\<^verbatim>\<open>Object.keys(v)\<close>: throws on \<^verbatim>\<open>undefined\<close> and \<^verbatim>\<open>null\<close>; the indices of a
  string; nothing for a number or a boolean.\<close>

fun Object_keys :: "heap \<Rightarrow> jsval \<Rightarrow> error + string list" where
  "Object_keys h JUndefined = Inl TypeError"
| "Object_keys h JNull = Inl TypeError"
| "Object_keys h (JRef a) = Inr (map fst (obj_at h a))"
| "Object_keys h (JStr s) = Inr (map dec [0..<length s])"
| "Object_keys h v = Inr []"

text \<open>\<^verbatim>\<open>ks[0]\<close>: \<open>None\<close> stands for \<^verbatim>\<open>undefined\<close>, and \<open>prop_key\<close> is the property
  name it is converted to when used as a subscript.\<close>

definition firstKey_of :: "string list \<Rightarrow> string option" where
  "firstKey_of ks = (case ks of [] \<Rightarrow> None | k # _ \<Rightarrow> Some k)"

definition prop_key :: "string option \<Rightarrow> string" where
  "prop_key k = (case k of None \<Rightarrow> ''undefined'' | Some s \<Rightarrow> s)"

text \<open>\<^verbatim>\<open>v[k]\<close> on a value that is neither \<^verbatim>\<open>undefined\<close> nor \<^verbatim>\<open>null\<close>. The code reads
  only names that \<^verbatim>\<open>Object.keys\<close> returned and the fixed names \<^verbatim>\<open>undefined\<close>, \<^verbatim>\<open>tag\<close>,
  \<^verbatim>\<open>exp\<close>, \<^verbatim>\<open>prices\<close>, \<^verbatim>\<open>price\<close>, \<^verbatim>\<open>coin_purse\<close> and \<^verbatim>\<open>onlyNetworth\<close>, none of which
  a built-in prototype defines, so an absent own property reads as \<^verbatim>\<open>undefined\<close>.\<close>

fun get_prop :: "heap \<Rightarrow> jsval \<Rightarrow> string \<Rightarrow> jsval" where
  "get_prop h (JRef a) k =
     (case map_of (obj_at h a) k of Some x \<Rightarrow> x | None \<Rightarrow> JUndefined)"
| "get_prop h (JStr s) k =
     (case find (\<lambda>i. dec i = k) [0..<length s] of
        Some i \<Rightarrow> JStr [s ! i]
      | None \<Rightarrow> JUndefined)"
| "get_prop h v k = JUndefined"

text \<open>\<^verbatim>\<open>v.k\<close>, which throws on \<^verbatim>\<open>undefined\<close> and \<^verbatim>\<open>null\<close>, and \<^verbatim>\<open>v?.k\<close>, which
  yields \<^verbatim>\<open>undefined\<close> there.\<close>

definition member :: "heap \<Rightarrow> jsval \<Rightarrow> string \<Rightarrow> error + jsval" where
  "member h v k = (if nullish v then Inl TypeError else Inr (get_prop h v k))"

definition opt_member :: "heap \<Rightarrow> jsval \<Rightarrow> string \<Rightarrow> jsval" where
  "opt_member h v k = (if nullish v then JUndefined else get_prop h v k)"

text \<open>The assignment \<^verbatim>\<open>o[k] = v\<close> on a plain object: an existing own property is
  overwritten where it stands, a new one is appended. (The keys this code writes are
  lowercased keys of the same object, or go into a fresh object in enumeration order, so
  appending agrees with the enumeration order of the engine.) The name \<^verbatim>\<open>__proto__\<close> is
  special: unless it is already an own property the assignment reaches the inherited
  setter and creates no own property. (When the value assigned is an object the setter
  installs it as the prototype, and refuses a cyclic one; prototypes are not modelled.)\<close>

definition assign :: "obj \<Rightarrow> string \<Rightarrow> jsval \<Rightarrow> obj" where
  "assign ob k v =
     (if k = ''__proto__'' \<and> k \<notin> set (map fst ob) then ob else AList.update k v ob)"

text \<open>\<^verbatim>\<open>p[k] = v\<close> for a value \<open>p\<close>: on a primitive the assignment is silently dropped
  (the module is not in strict mode).\<close>

fun set_prop :: "heap \<Rightarrow> jsval \<Rightarrow> string \<Rightarrow> jsval \<Rightarrow> heap" where
  "set_prop h (JRef a) k v = (if a < length h then h[a := assign (h ! a) k v] else h)"
| "set_prop h p k v = h"

section \<open>The catalog fetcher\<close>

text \<open>
  \<^verbatim>\<open>axios.get\<close> is an external collaborator: its outcome is an input of the model.
  \<open>Resolved d\<close> is a response whose \<^verbatim>\<open>data\<close> is the value \<open>d\<close> (already stored in the
  heap the model is run on); \<open>Rejected st\<close> is a rejection whose error has
  \<^verbatim>\<open>response.status\<close> equal to \<open>st\<close>, with \<open>None\<close> when the error carries no response
  (a transport failure).
\<close>

datatype response = Resolved jsval | Rejected "nat option"

text \<open>\<^verbatim>\<open>err?.response?.status || 'Unknown'\<close> inside the template literal.\<close>

definition status_text :: "nat option \<Rightarrow> string" where
  "status_text st =
     (case st of
        None \<Rightarrow> ''Unknown''
      | Some n \<Rightarrow> if n = 0 then ''Unknown'' else dec n)"

definition failure_message :: "nat option \<Rightarrow> string" where
  "failure_message st = ''Failed to retrieve prices with status code '' @ status_text st"

text \<open>\<^verbatim>\<open>Object.entries(v)\<close> on a value that is neither \<^verbatim>\<open>undefined\<close> nor \<^verbatim>\<open>null\<close>.\<close>

definition Object_entries :: "heap \<Rightarrow> jsval \<Rightarrow> (string \<times> jsval) list" where
  "Object_entries h v =
     (case Object_keys h v of
        Inl e \<Rightarrow> []
      | Inr ks \<Rightarrow> map (\<lambda>k. (k, get_prop h v k)) ks)"

text \<open>The first loop of \<^verbatim>\<open>getPrices\<close>: \<^verbatim>\<open>prices[item.toLowerCase()] = priceObject.price\<close>
  for every entry, into the object built so far.\<close>

fun price_entries :: "heap \<Rightarrow> (string \<times> jsval) list \<Rightarrow> obj \<Rightarrow> error + obj" where
  "price_entries h [] acc = Inr acc"
| "price_entries h ((item, priceObject) # es) acc =
     (case member h priceObject ''price'' of
        Inl e \<Rightarrow> Inl e
      | Inr p \<Rightarrow> price_entries h es (assign acc (toLowerCase item) p))"

text \<open>The second loop of \<^verbatim>\<open>getPrices\<close>: \<^verbatim>\<open>prices[item.toLowerCase()] = price\<close>.\<close>

fun lower_entries :: "(string \<times> jsval) list \<Rightarrow> obj \<Rightarrow> obj" where
  "lower_entries [] acc = acc"
| "lower_entries ((item, price) # es) acc =
     lower_entries es (assign acc (toLowerCase item) price)"

text \<open>The body of the \<^verbatim>\<open>try\<close> block once the response is there. A fresh object is
  allocated at the end of the heap; when a loop throws, the half-built object is
  unreachable and is left out of the heap.\<close>

definition getPrices_try :: "heap \<Rightarrow> jsval \<Rightarrow> error + (jsval \<times> heap)" where
  "getPrices_try h d =
     (case Object_keys h d of
        Inl e \<Rightarrow> Inl e
      | Inr ks \<Rightarrow>
          let firstKey = firstKey_of ks in
          if instanceof_Object (get_prop h d (prop_key firstKey)) then
            (case price_entries h (Object_entries h d) [] of
               Inl e \<Rightarrow> Inl e
             | Inr prices \<Rightarrow> Inr (JRef (length h), h @ [prices]))
          else
            (case firstKey of
               None \<Rightarrow> Inl TypeError
             | Some fk \<Rightarrow>
                 if fk \<noteq> toLowerCase fk then
                   Inr (JRef (length h), h @ [lower_entries (Object_entries h d) []])
                 else Inr (d, h)))"

text \<open>\<^verbatim>\<open>getPrices\<close>: whatever is thrown inside \<^verbatim>\<open>try\<close> is caught and rethrown as a
  \<^verbatim>\<open>PricesError\<close>; an error thrown by the body itself has no \<^verbatim>\<open>response\<close>.\<close>

definition getPrices :: "response \<Rightarrow> heap \<Rightarrow> (error + jsval) \<times> heap" where
  "getPrices net h =
     (case net of
        Rejected st \<Rightarrow> (Inl (PricesError (failure_message st)), h)
      | Resolved d \<Rightarrow>
          (case getPrices_try h d of
             Inl e \<Rightarrow> (Inl (PricesError (failure_message None)), h)
           | Inr (v, h') \<Rightarrow> (Inr v, h')))"

section \<open>Normalising a supplied catalog\<close>

text \<open>The loop \<^verbatim>\<open>for (id of Object.keys(prices)) prices[id.toLowerCase()] = prices[id]\<close>:
  the keys are listed once, before the first assignment, and every value is read from
  the object as the earlier iterations left it. The loop variable \<^verbatim>\<open>id\<close> is not
  declared and the module is not in strict mode: every iteration first stores the key in
  the property \<^verbatim>\<open>id\<close> of the global object, then runs the body.\<close>

fun lowercase_keys :: "jsval \<Rightarrow> string list \<Rightarrow> world \<Rightarrow> world" where
  "lowercase_keys prices [] w = w"
| "lowercase_keys prices (id' # ids) (h, g) =
     lowercase_keys prices ids
       (set_prop h prices (toLowerCase id') (get_prop h prices id'),
        assign g ''id'' (JStr id'))"

text \<open>\<^verbatim>\<open>parsePrices\<close>. \<^verbatim>\<open>getPrices\<close> declares every variable it uses, so it runs on
  the heap alone and leaves the global object as it is.\<close>

definition parsePrices :: "response \<Rightarrow> world \<Rightarrow> jsval \<Rightarrow> (error + jsval) \<times> world" where
  "parsePrices net w prices =
     (if truthy prices then
        (case Object_keys (fst w) prices of
           Inl e \<Rightarrow> (Inl e, w)
         | Inr ks \<Rightarrow>
             let firstKey = firstKey_of ks in
             if instanceof_Object (js_not prices)
                \<or> instanceof_Object (get_prop (fst w) prices (prop_key firstKey))
             then (Inl (NetworthError ''Invalid prices data provided''), w)
             else
               (case firstKey of
                  None \<Rightarrow> (Inl TypeError, w)
                | Some fk \<Rightarrow>
                    if fk \<noteq> toLowerCase fk then (Inr prices, lowercase_keys prices ks w)
                    else (Inr prices, w)))
      else (case getPrices net (fst w) of (r, h') \<Rightarrow> (r, (h', snd w))))"

section \<open>The entry points\<close>

text \<open>\<^verbatim>\<open>calculateItemNetworth\<close>, \<^verbatim>\<open>calculateNetworth\<close> and \<^verbatim>\<open>parseItems\<close> live in helper
  modules outside this file; they are parameters of the entry points.\<close>

type_synonym 'a outcome = "(error + 'a) \<times> world"

definition getItemNetworth ::
  "(world \<Rightarrow> jsval \<Rightarrow> jsval \<Rightarrow> jsval outcome) \<Rightarrow> response \<Rightarrow> world \<Rightarrow> jsval \<Rightarrow> jsval
     \<Rightarrow> jsval outcome" where
  "getItemNetworth calculateItemNetworth net w item options =
     (if \<not> truthy (opt_member (fst w) item ''tag'') \<and> \<not> truthy (opt_member (fst w) item ''exp'')
      then (Inl (NetworthError ''Invalid item provided''), w)
      else
        (case parsePrices net w (opt_member (fst w) options ''prices'') of
           (Inl e, w1) \<Rightarrow> (Inl e, w1)
         | (Inr prices, w1) \<Rightarrow> calculateItemNetworth w1 item prices))"

definition getNetworth ::
  "(world \<Rightarrow> jsval \<Rightarrow> jsval outcome)
     \<Rightarrow> (world \<Rightarrow> jsval \<Rightarrow> jsval \<Rightarrow> jsval \<Rightarrow> jsval \<Rightarrow> jsval \<Rightarrow> jsval outcome)
     \<Rightarrow> response \<Rightarrow> world \<Rightarrow> jsval \<Rightarrow> jsval \<Rightarrow> jsval \<Rightarrow> jsval outcome" where
  "getNetworth parseItems calculateNetworth net w profileData bankBalance options =
     (case member (fst w) profileData ''coin_purse'' of
        Inl e \<Rightarrow> (Inl e, w)
      | Inr purse \<Rightarrow>
          (case parsePrices net w (opt_member (fst w) options ''prices'') of
             (Inl e, w1) \<Rightarrow> (Inl e, w1)
           | (Inr prices, w1) \<Rightarrow>
               (case parseItems w1 profileData of
                  (Inl e, w2) \<Rightarrow> (Inl e, w2)
                | (Inr items, w2) \<Rightarrow>
                    calculateNetworth w2 items purse bankBalance prices
                      (opt_member (fst w2) options ''onlyNetworth''))))"

section \<open>Notions of the specification\<close>

text \<open>A unit price of the canonical catalog: a finite number that is not negative.\<close>

definition is_price :: "jsval \<Rightarrow> bool" where
  "is_price v = (case v of JNum r \<Rightarrow> 0 \<le> r | _ \<Rightarrow> False)"

text \<open>The canonical \<^verbatim>\<open>PriceCatalog\<close>: not empty, keys unique and lowercase, every value a
  bare price.\<close>

definition canonical :: "obj \<Rightarrow> bool" where
  "canonical ob \<longleftrightarrow>
     ob \<noteq> [] \<and> distinct (map fst ob)
     \<and> list_all (\<lambda>(k, v). k = toLowerCase k \<and> is_price v) ob"

text \<open>The loop of \<^verbatim>\<open>parsePrices\<close> seen on the one object it writes to.\<close>

fun lower_loop :: "string list \<Rightarrow> obj \<Rightarrow> obj" where
  "lower_loop [] ob = ob"
| "lower_loop (k # ks) ob =
     lower_loop ks
       (assign ob (toLowerCase k) (case map_of ob k of Some x \<Rightarrow> x | None \<Rightarrow> JUndefined))"

text \<open>What the loop of \<^verbatim>\<open>parsePrices\<close> leaves in the global object.\<close>

fun global_ids :: "string list \<Rightarrow> obj \<Rightarrow> obj" where
  "global_ids [] g = g"
| "global_ids (k # ks) g = global_ids ks (assign g ''id'' (JStr k))"

text \<open>Whether a value has an own enumerable property of the given name.\<close>

definition has_field :: "heap \<Rightarrow> jsval \<Rightarrow> string \<Rightarrow> bool" where
  "has_field h v k = (case Object_keys h v of Inl e \<Rightarrow> False | Inr ks \<Rightarrow> k \<in> set ks)"

text \<open>A collaborator that values nothing, to run the entry points on concrete inputs.\<close>

definition no_valuation :: "world \<Rightarrow> jsval \<Rightarrow> jsval \<Rightarrow> jsval outcome" where
  "no_valuation w item prices = (Inr JUndefined, w)"

section \<open>Auxiliary facts\<close>

lemma lower_char_idem: "lower_char (lower_char c) = lower_char c"
  unfolding lower_char_def by simp

lemma toLowerCase_idem: "toLowerCase (toLowerCase s) = toLowerCase s"
  by (simp add: toLowerCase_def lower_char_idem)

lemma toLowerCase_proto: "toLowerCase ''__proto__'' = ''__proto__''"
  by (simp add: toLowerCase_def lower_char_def)

lemma lowercase_keys_heap:
  "a < length h \<Longrightarrow>
   lowercase_keys (JRef a) ks (h, g) = (h[a := lower_loop ks (h ! a)], global_ids ks g)"
proof (induction ks arbitrary: h g)
  case Nil
  then show ?case by simp
next
  case (Cons k ks)
  then show ?case by (simp add: obj_at_def)
qed


lemma global_ids_last:
  "ks \<noteq> [] \<Longrightarrow> map_of (global_ids ks g) ''id'' = Some (JStr (last ks))"
proof (induction ks arbitrary: g)
  case Nil
  then show ?case by simp
next
  case (Cons k ks)
  then show ?case
    by (cases ks) (simp_all add: assign_def update_conv')
qed

lemma keys_assign:
  "set (map fst (assign ob k v)) =
     (if k = ''__proto__'' \<and> k \<notin> set (map fst ob) then set (map fst ob)
      else insert k (set (map fst ob)))"
  by (auto simp: assign_def dom_update)

lemma map_of_assign:
  "map_of (assign ob k v) =
     (if k = ''__proto__'' \<and> k \<notin> set (map fst ob) then map_of ob else (map_of ob)(k \<mapsto> v))"
  by (auto simp: assign_def update_conv')

lemma distinct_assign: "distinct (map fst ob) \<Longrightarrow> distinct (map fst (assign ob k v))"
  by (simp add: assign_def distinct_update)

lemma hidden_assign:
  "''__proto__'' \<in> set (map fst (assign ob k v)) \<longleftrightarrow> ''__proto__'' \<in> set (map fst ob)"
  using keys_assign [of ob k v] by auto

lemma lower_loop_closed:
  "set ks \<subseteq> set (map fst ob) \<Longrightarrow>
   map_of (lower_loop ks ob) l =
     (if l = ''__proto__'' \<and> l \<notin> set (map fst ob) then None
      else case filter (\<lambda>k. k \<noteq> toLowerCase k \<and> toLowerCase k = l) (rev ks) of
             [] \<Rightarrow> map_of ob l
           | k # _ \<Rightarrow> map_of ob k)"
proof (induction ks arbitrary: ob)
  case Nil
  then show ?case by (auto simp: map_of_eq_None_iff)
next
  case (Cons k ks)
  define v where "v = (case map_of ob k of Some x \<Rightarrow> x | None \<Rightarrow> JUndefined)"
  define ob' where "ob' = assign ob (toLowerCase k) v"
  define P where "P = (\<lambda>k. k \<noteq> toLowerCase k \<and> toLowerCase k = l)"
  define hidden where "hidden ob \<longleftrightarrow> l = ''__proto__'' \<and> l \<notin> set (map fst ob)" for ob :: obj
  have step: "lower_loop (k # ks) ob = lower_loop ks ob'"
    by (simp add: ob'_def v_def)
  from Cons.prems have kin: "k \<in> set (map fst ob)" and sub: "set ks \<subseteq> set (map fst ob')"
    using keys_assign [of ob "toLowerCase k" v] by (auto simp: ob'_def)
  from kin have x: "map_of ob k = Some v"
    by (cases "map_of ob k") (auto simp: v_def map_of_eq_None_iff)
  have hid: "hidden ob' \<longleftrightarrow> hidden ob"
    using keys_assign [of ob "toLowerCase k" v] by (auto simp: ob'_def hidden_def)
  have keep: "map_of ob' k' = map_of ob k'" if "k' \<noteq> toLowerCase k'" for k'
    using that toLowerCase_idem [of k] by (auto simp: map_of_assign ob'_def)
  have IH: "map_of (lower_loop ks ob') l =
     (if hidden ob' then None
      else case filter P (rev ks) of [] \<Rightarrow> map_of ob' l | k' # _ \<Rightarrow> map_of ob' k')"
    unfolding hidden_def P_def by (rule Cons.IH [OF sub])
  have goal: "map_of (lower_loop ks ob') l =
     (if hidden ob then None
      else case filter P (rev (k # ks)) of [] \<Rightarrow> map_of ob l | k' # _ \<Rightarrow> map_of ob k')"
  proof (cases "hidden ob")
    case True
    then show ?thesis using IH hid by simp
  next
    case False
    show ?thesis
    proof (cases "filter P (rev ks)")
      case (Cons k' rest)
      then have "k' \<in> set (filter P (rev ks))" by simp
      then have "k' \<noteq> toLowerCase k'" by (auto simp: P_def)
      then have "map_of ob' k' = map_of ob k'" by (rule keep)
      then show ?thesis using IH False hid Cons by simp
    next
      case Nil
      have "map_of ob' l = (if P k then map_of ob k else map_of ob l)"
        using False x by (auto simp: map_of_assign ob'_def hidden_def P_def)
      then show ?thesis using IH False hid Nil by simp
    qed
  qed
  show ?case
    using goal unfolding step hidden_def P_def .
qed

lemma lower_loop_keeps_mixed:
  assumes "set ks \<subseteq> set (map fst ob)" "k \<noteq> toLowerCase k"
  shows "map_of (lower_loop ks ob) k = map_of ob k"
proof -
  have "filter (\<lambda>k'. k' \<noteq> toLowerCase k' \<and> toLowerCase k' = k) (rev ks) = []"
    using assms(2) toLowerCase_idem by (auto simp: filter_empty_conv)
  moreover have "k \<noteq> ''__proto__''"
    using assms(2) toLowerCase_proto by auto
  ultimately show ?thesis
    using lower_loop_closed [OF assms(1), of k] by simp
qed

lemma lower_loop_keys_mono: "set (map fst ob) \<subseteq> set (map fst (lower_loop ks ob))"
proof (induction ks arbitrary: ob)
  case Nil
  then show ?case by simp
next
  case (Cons k ks)
  define v where "v = (case map_of ob k of Some x \<Rightarrow> x | None \<Rightarrow> JUndefined)"
  have "set (map fst ob) \<subseteq> set (map fst (assign ob (toLowerCase k) v))"
    using keys_assign [of ob "toLowerCase k" v] by (auto split: if_splits)
  also have "\<dots> \<subseteq> set (map fst (lower_loop ks (assign ob (toLowerCase k) v)))"
    by (rule Cons.IH)
  finally show ?case by (simp add: v_def)
qed

lemma lower_loop_keys_lower:
  "k \<in> set ks \<Longrightarrow> toLowerCase k \<noteq> ''__proto__''
   \<Longrightarrow> toLowerCase k \<in> set (map fst (lower_loop ks ob))"
proof (induction ks arbitrary: ob)
  case Nil
  then show ?case by simp
next
  case (Cons k' ks)
  define v where "v = (case map_of ob k' of Some x \<Rightarrow> x | None \<Rightarrow> JUndefined)"
  define ob' where "ob' = assign ob (toLowerCase k') v"
  have step: "lower_loop (k' # ks) ob = lower_loop ks ob'"
    by (simp add: ob'_def v_def)
  show ?case
  proof (cases "k = k'")
    case True
    then have "toLowerCase k \<in> set (map fst ob')"
      using keys_assign [of ob "toLowerCase k'" v] Cons.prems(2) by (auto simp: ob'_def)
    then show ?thesis
      unfolding step using lower_loop_keys_mono [of ob' ks] by blast
  next
    case False
    then have "k \<in> set ks" using Cons.prems(1) by simp
    then show ?thesis
      unfolding step using Cons.IH Cons.prems(2) by blast
  qed
qed

lemma lower_loop_last_wins:
  assumes "set (xs @ k # ys) \<subseteq> set (map fst ob)" "k \<noteq> toLowerCase k"
    "\<forall>k' \<in> set ys. k' \<noteq> toLowerCase k' \<longrightarrow> toLowerCase k' \<noteq> toLowerCase k"
    "toLowerCase k \<noteq> ''__proto__''"
  shows "map_of (lower_loop (xs @ k # ys) ob) (toLowerCase k) = map_of ob k"
proof -
  define P where "P = (\<lambda>k'. k' \<noteq> toLowerCase k' \<and> toLowerCase k' = toLowerCase k)"
  have "filter P (rev ys) = []"
    using assms(3) by (auto simp: filter_empty_conv P_def)
  moreover have "P k" using assms(2) by (simp add: P_def)
  ultimately have "filter P (rev (xs @ k # ys)) = k # filter P (rev xs)"
    by simp
  then show ?thesis
    using lower_loop_closed [OF assms(1), of "toLowerCase k"] assms(4)
    by (simp add: P_def)
qed

lemma lower_loop_unique:
  assumes "(k, v) \<in> set ob" "distinct (map fst ob)"
    "\<forall>k' \<in> set (map fst ob). toLowerCase k' = toLowerCase k \<longrightarrow> k' = k"
    "toLowerCase k \<noteq> ''__proto__''"
  shows "map_of (lower_loop (map fst ob) ob) (toLowerCase k) = Some v"
proof -
  define P where "P = (\<lambda>k'. k' \<noteq> toLowerCase k' \<and> toLowerCase k' = toLowerCase k)"
  have v: "map_of ob k = Some v"
    using assms(1,2) by simp
  have closed: "map_of (lower_loop (map fst ob) ob) (toLowerCase k) =
      (case filter P (rev (map fst ob)) of [] \<Rightarrow> map_of ob (toLowerCase k) | k' # _ \<Rightarrow> map_of ob k')"
    using lower_loop_closed [of "map fst ob" ob "toLowerCase k"] assms(4)
    by (simp add: P_def)
  show ?thesis
  proof (cases "filter P (rev (map fst ob))")
    case Nil
    have "k \<in> set (rev (map fst ob))" using assms(1) by force
    with Nil have "\<not> P k"
      by (metis filter_empty_conv)
    then have "toLowerCase k = k" by (simp add: P_def)
    then show ?thesis using closed Nil v by simp
  next
    case (Cons k' ks')
    then have "k' \<in> set (filter P (rev (map fst ob)))" by simp
    then have "k' \<in> set (map fst ob)" and "toLowerCase k' = toLowerCase k"
      by (auto simp: P_def)
    with assms(3) have "k' = k" by blast
    then show ?thesis using closed Cons v by simp
  qed
qed

lemma lower_entries_closed:
  "map_of (lower_entries es acc) l =
     (if l = ''__proto__'' \<and> l \<notin> set (map fst acc) then None
      else case map_of (rev (map (\<lambda>(k, v). (toLowerCase k, v)) es)) l of
             Some v \<Rightarrow> Some v
           | None \<Rightarrow> map_of acc l)"
proof (induction es arbitrary: acc)
  case Nil
  then show ?case by (auto simp: map_of_eq_None_iff)
next
  case (Cons e es)
  obtain k v where e: "e = (k, v)" by (cases e)
  define acc' where "acc' = assign acc (toLowerCase k) v"
  define hidden where "hidden ob \<longleftrightarrow> l = ''__proto__'' \<and> l \<notin> set (map fst ob)" for ob :: obj
  define m where "m = map_of (rev (map (\<lambda>(k, v). (toLowerCase k, v)) es))"
  have hid: "hidden acc' \<longleftrightarrow> hidden acc"
    using hidden_assign [of acc "toLowerCase k" v] by (auto simp: hidden_def acc'_def)
  have IH: "map_of (lower_entries es acc') l =
      (if hidden acc' then None else case m l of Some v \<Rightarrow> Some v | None \<Rightarrow> map_of acc' l)"
    unfolding hidden_def m_def by (rule Cons.IH)
  have upd: "\<not> hidden acc \<Longrightarrow> map_of acc' l = (if toLowerCase k = l then Some v else map_of acc l)"
    by (auto simp: hidden_def acc'_def map_of_assign)
  have app: "map_of (rev (map (\<lambda>(k, v). (toLowerCase k, v)) (e # es))) l =
      (case m l of Some v \<Rightarrow> Some v | None \<Rightarrow> if toLowerCase k = l then Some v else None)"
    by (auto simp: e m_def map_add_def split: option.splits)
  have "map_of (lower_entries es acc') l =
      (if hidden acc then None
       else case map_of (rev (map (\<lambda>(k, v). (toLowerCase k, v)) (e # es))) l of
              Some v \<Rightarrow> Some v | None \<Rightarrow> map_of acc l)"
    unfolding app using IH hid upd by (cases "hidden acc"; cases "m l"; simp)
  then show ?case
    by (simp add: e acc'_def hidden_def)
qed

lemma keys_lower_entries:
  "set (map fst (lower_entries es acc)) \<subseteq> set (map fst acc) \<union> toLowerCase ` fst ` set es"
proof (induction es arbitrary: acc)
  case Nil
  then show ?case by simp
next
  case (Cons e es)
  obtain k v where e: "e = (k, v)" by (cases e)
  show ?case
    using Cons.IH [of "assign acc (toLowerCase k) v"] keys_assign [of acc "toLowerCase k" v]
    by (auto simp: e split: if_splits)
qed

lemma lower_entries_keys_lower:
  "k \<in> set (map fst (lower_entries es [])) \<Longrightarrow> k = toLowerCase k"
  using keys_lower_entries [of es "[]"] toLowerCase_idem by auto

lemma price_entries_lower_entries:
  "\<forall>(k, v) \<in> set es. \<not> nullish v \<Longrightarrow>
   price_entries h es acc =
     Inr (lower_entries (map (\<lambda>(k, v). (k, get_prop h v ''price'')) es) acc)"
  by (induction es arbitrary: acc) (auto simp: member_def)

lemma map_of_unique:
  assumes "(l, v) \<in> set xs" and "\<forall>v'. (l, v') \<in> set xs \<longrightarrow> v' = v"
  shows "map_of xs l = Some v"
proof (cases "map_of xs l")
  case None
  then have "l \<notin> fst ` set xs" by (simp add: map_of_eq_None_iff)
  with assms(1) show ?thesis by force
next
  case (Some v')
  then have "(l, v') \<in> set xs" by (rule map_of_SomeD)
  with assms(2) Some show ?thesis by simp
qed

lemma lower_entries_unique:
  assumes "(k, v) \<in> set es" "distinct (map fst es)"
    "\<forall>k' \<in> set (map fst es). toLowerCase k' = toLowerCase k \<longrightarrow> k' = k"
    "toLowerCase k \<noteq> ''__proto__''"
  shows "map_of (lower_entries es []) (toLowerCase k) = Some v"
proof -
  let ?xs = "rev (map (\<lambda>(k, v). (toLowerCase k, v)) es)"
  have mem: "(toLowerCase k, v) \<in> set ?xs"
    using assms(1) by force
  have uniq: "\<forall>v'. (toLowerCase k, v') \<in> set ?xs \<longrightarrow> v' = v"
  proof (intro allI impI)
    fix v' assume "(toLowerCase k, v') \<in> set ?xs"
    then obtain k' where k': "(k', v') \<in> set es" "toLowerCase k' = toLowerCase k"
      by auto
    then have "k' = k" using assms(3) by force
    with k' assms(1,2) show "v' = v"
      by (metis eq_key_imp_eq_value)
  qed
  have "map_of ?xs (toLowerCase k) = Some v"
    by (rule map_of_unique [OF mem uniq])
  then show ?thesis
    using assms(4) by (simp add: lower_entries_closed)
qed

lemma entries_of_object:
  assumes "distinct (map fst ob)"
  shows "map (\<lambda>k. (k, case map_of ob k of Some x \<Rightarrow> x | None \<Rightarrow> JUndefined)) (map fst ob) = ob"
proof -
  have "map ((\<lambda>k. (k, case map_of ob k of Some x \<Rightarrow> x | None \<Rightarrow> JUndefined)) \<circ> fst) ob = ob"
  proof (rule map_idI)
    fix e assume "e \<in> set ob"
    then have "map_of ob (fst e) = Some (snd e)"
      using assms by simp
    then show "((\<lambda>k. (k, case map_of ob k of Some x \<Rightarrow> x | None \<Rightarrow> JUndefined)) \<circ> fst) e = e"
      by simp
  qed
  then show ?thesis by simp
qed

lemma Object_entries_ref:
  "a < length h \<Longrightarrow> distinct (map fst (h ! a)) \<Longrightarrow> Object_entries h (JRef a) = h ! a"
  using entries_of_object [of "h ! a"] by (simp add: Object_entries_def obj_at_def)

lemma parsePrices_mixed:
  assumes "a < length h" "h ! a = (k0, v0) # rest" "k0 \<noteq> toLowerCase k0"
    "\<not> instanceof_Object v0"
  shows "parsePrices net (h, g) (JRef a) =
    (Inr (JRef a), (h[a := lower_loop (map fst (h ! a)) (h ! a)], global_ids (map fst (h ! a)) g))"
  using assms lowercase_keys_heap [OF assms(1), of "map fst (h ! a)" g]
  by (simp add: parsePrices_def obj_at_def firstKey_of_def prop_key_def js_not_def)

lemma getPrices_mixed:
  assumes "a < length h" "h ! a = (k0, v0) # rest" "k0 \<noteq> toLowerCase k0"
    "\<not> instanceof_Object v0" "distinct (map fst (h ! a))"
  shows "getPrices (Resolved (JRef a)) h =
           (Inr (JRef (length h)), h @ [lower_entries (h ! a) []])"
  using assms(1-4) Object_entries_ref [OF assms(1) assms(5)]
  by (simp add: getPrices_def getPrices_try_def obj_at_def firstKey_of_def prop_key_def)

lemma getPrices_object_valued:
  assumes "a < length h" "h ! a = (k0, JRef b) # rest" "distinct (map fst (h ! a))"
    "\<forall>(k, v) \<in> set (h ! a). \<not> nullish v"
  shows "getPrices (Resolved (JRef a)) h =
    (Inr (JRef (length h)),
     h @ [lower_entries (map (\<lambda>(k, v). (k, get_prop h v ''price'')) (h ! a)) []])"
  using assms(1,2) Object_entries_ref [OF assms(1) assms(3)]
    price_entries_lower_entries [OF assms(4), of h "[]"]
  by (simp add: getPrices_def getPrices_try_def obj_at_def firstKey_of_def prop_key_def)

lemma getPrices_not_NetworthError: "fst (getPrices net h) \<noteq> Inl (NetworthError m)"
  by (auto simp: getPrices_def split: response.splits sum.splits prod.splits)

lemma lower_loop_lowercase_kept:
  assumes "k \<in> set (map fst ob)" "k = toLowerCase k"
    "\<forall>k' \<in> set (map fst ob). k' \<noteq> toLowerCase k' \<longrightarrow> toLowerCase k' \<noteq> k"
  shows "map_of (lower_loop (map fst ob) ob) k = map_of ob k"
proof -
  have "filter (\<lambda>k'. k' \<noteq> toLowerCase k' \<and> toLowerCase k' = k) (rev (map fst ob)) = []"
    using assms(3) by (auto simp: filter_empty_conv)
  then show ?thesis
    using lower_loop_closed [of "map fst ob" ob k] assms(1) by simp
qed


lemma no_keys_undefined:
  "Object_keys h p = Inr [] \<Longrightarrow> truthy p \<Longrightarrow> get_prop h p k = JUndefined"
  by (cases p) (auto)

lemma no_field_undefined: "\<not> has_field h v k \<Longrightarrow> opt_member h v k = JUndefined"
proof (cases v)
  case (JRef a)
  assume "\<not> has_field h v k"
  then have "map_of (obj_at h a) k = None"
    by (simp add: JRef has_field_def map_of_eq_None_iff)
  then show ?thesis by (simp add: JRef opt_member_def)
next
  case (JStr s)
  assume "\<not> has_field h v k"
  then have "find (\<lambda>i. dec i = k) [0..<length s] = None"
    by (auto simp: JStr has_field_def find_None_iff)
  then show ?thesis by (simp add: JStr opt_member_def)
qed (simp_all add: opt_member_def)

lemma no_field_falsy:
  "\<not> has_field h item ''tag'' \<Longrightarrow> \<not> has_field h item ''exp''
   \<Longrightarrow> getItemNetworth calc net (h, g) item options
        = (Inl (NetworthError ''Invalid item provided''), (h, g))"
  using no_field_undefined [of h item] by (simp add: getItemNetworth_def)

lemma truthy_field_proceeds:
  "truthy (opt_member h item ''tag'') \<or> truthy (opt_member h item ''exp'')
   \<Longrightarrow> getItemNetworth calc net (h, g) item options =
        (case parsePrices net (h, g) (opt_member h options ''prices'') of
           (Inl e, w1) \<Rightarrow> (Inl e, w1)
         | (Inr prices, w1) \<Rightarrow> calc w1 item prices)"
  by (auto simp: getItemNetworth_def)

section \<open>Properties of the entry points\<close>

subsection \<open>The supplied and the fetched pathway\<close>

text \<open>
  Claim C1, as the code has it. The two pathways do not share their rules. When the
  caller supplies no catalog (a falsy argument) \<^verbatim>\<open>parsePrices\<close> returns exactly what
  \<^verbatim>\<open>getPrices\<close> returns. A supplied structure whose first value is an object is
  rejected with "Invalid prices data provided", whereas a fetched structure of that shape
  is rebuilt: for every entry whose lowercased key is shared with no other entry, the
  fresh catalog holds the entry's \<^verbatim>\<open>price\<close> field under the lowercased key. A flat
  structure whose first key is lowercase is returned as it is by both pathways.
\<close>

theorem pathways:
  "(\<not> truthy prices \<longrightarrow>
        parsePrices net (h, g) prices = (fst (getPrices net h), (snd (getPrices net h), g)))
   \<and> (a < length h \<and> h ! a = (k0, JRef b) # rest \<longrightarrow>
        parsePrices net (h, g) (JRef a)
          = (Inl (NetworthError ''Invalid prices data provided''), (h, g)))
   \<and> (a < length h \<and> h ! a = (k0, JRef b) # rest \<and> distinct (map fst (h ! a))
        \<and> (\<forall>(k', v') \<in> set (h ! a). \<not> nullish v')
        \<and> (k, v) \<in> set (h ! a)
        \<and> (\<forall>k' \<in> set (map fst (h ! a)). toLowerCase k' = toLowerCase k \<longrightarrow> k' = k)
        \<and> toLowerCase k \<noteq> ''__proto__'' \<longrightarrow>
        fst (getPrices (Resolved (JRef a)) h) = Inr (JRef (length h))
        \<and> get_prop (snd (getPrices (Resolved (JRef a)) h)) (JRef (length h)) (toLowerCase k)
            = get_prop h v ''price'')
   \<and> (a < length h \<and> h ! a = (k0, v0) # rest \<and> \<not> instanceof_Object v0 \<and> k0 = toLowerCase k0 \<longrightarrow>
        parsePrices net (h, g) (JRef a) = (Inr (JRef a), (h, g))
        \<and> getPrices (Resolved (JRef a)) h = (Inr (JRef a), h))"
proof -
  have p1: "\<not> truthy prices \<longrightarrow>
      parsePrices net (h, g) prices = (fst (getPrices net h), (snd (getPrices net h), g))"
    by (simp add: parsePrices_def split: prod.splits)
  have p2: "a < length h \<and> h ! a = (k0, JRef b) # rest \<longrightarrow>
      parsePrices net (h, g) (JRef a)
        = (Inl (NetworthError ''Invalid prices data provided''), (h, g))"
    by (simp add: parsePrices_def obj_at_def firstKey_of_def prop_key_def)
  have p4: "a < length h \<and> h ! a = (k0, v0) # rest \<and> \<not> instanceof_Object v0
        \<and> k0 = toLowerCase k0 \<longrightarrow>
      parsePrices net (h, g) (JRef a) = (Inr (JRef a), (h, g))
      \<and> getPrices (Resolved (JRef a)) h = (Inr (JRef a), h)"
    by (simp add: parsePrices_def getPrices_def getPrices_try_def obj_at_def firstKey_of_def
        prop_key_def js_not_def)
  have p3: "a < length h \<and> h ! a = (k0, JRef b) # rest \<and> distinct (map fst (h ! a))
        \<and> (\<forall>(k', v') \<in> set (h ! a). \<not> nullish v')
        \<and> (k, v) \<in> set (h ! a)
        \<and> (\<forall>k' \<in> set (map fst (h ! a)). toLowerCase k' = toLowerCase k \<longrightarrow> k' = k)
        \<and> toLowerCase k \<noteq> ''__proto__'' \<longrightarrow>
        fst (getPrices (Resolved (JRef a)) h) = Inr (JRef (length h))
        \<and> get_prop (snd (getPrices (Resolved (JRef a)) h)) (JRef (length h)) (toLowerCase k)
            = get_prop h v ''price''"
  proof (rule impI)
    assume A: "a < length h \<and> h ! a = (k0, JRef b) # rest \<and> distinct (map fst (h ! a))
        \<and> (\<forall>(k', v') \<in> set (h ! a). \<not> nullish v')
        \<and> (k, v) \<in> set (h ! a)
        \<and> (\<forall>k' \<in> set (map fst (h ! a)). toLowerCase k' = toLowerCase k \<longrightarrow> k' = k)
        \<and> toLowerCase k \<noteq> ''__proto__''"
    from A have a1: "a < length h" by blast
    from A have a2: "h ! a = (k0, JRef b) # rest" by blast
    from A have a3: "distinct (map fst (h ! a))" by blast
    from A have a4: "\<forall>(k', v') \<in> set (h ! a). \<not> nullish v'" by blast
    from A have a5: "(k, v) \<in> set (h ! a)" by blast
    from A have a6: "\<forall>k' \<in> set (map fst (h ! a)). toLowerCase k' = toLowerCase k \<longrightarrow> k' = k"
      by blast
    from A have a7: "toLowerCase k \<noteq> ''__proto__''" by blast
    define es where "es = map (\<lambda>(k, v). (k, get_prop h v ''price'')) (h ! a)"
    have gp: "getPrices (Resolved (JRef a)) h = (Inr (JRef (length h)), h @ [lower_entries es []])"
      unfolding es_def by (rule getPrices_object_valued [OF a1 a2 a3 a4])
    have keys: "map fst es = map fst (h ! a)"
      by (simp add: es_def comp_def case_prod_unfold)
    have mem: "(k, get_prop h v ''price'') \<in> set es"
      using a5 by (force simp: es_def)
    have d: "distinct (map fst es)"
      using a3 by (simp only: keys)
    have u: "\<forall>k' \<in> set (map fst es). toLowerCase k' = toLowerCase k \<longrightarrow> k' = k"
      using a6 by (simp only: keys)
    have "map_of (lower_entries es []) (toLowerCase k) = Some (get_prop h v ''price'')"
      by (rule lower_entries_unique [OF mem d u a7])
    then show "fst (getPrices (Resolved (JRef a)) h) = Inr (JRef (length h))
        \<and> get_prop (snd (getPrices (Resolved (JRef a)) h)) (JRef (length h)) (toLowerCase k)
            = get_prop h v ''price''"
      by (simp add: gp obj_at_def)
  qed
  show ?thesis
    by (intro conjI) (rule p1, rule p2, rule p3, rule p4)
qed

text \<open>
  Claim C1, witness: no catalog supplied; the structure \<^verbatim>\<open>{"A": {"price": 5}}\<close> supplied
  and fetched; the flat catalog \<^verbatim>\<open>{"a": 5}\<close> supplied.
\<close>

theorem pathways_witness:
  "parsePrices (Rejected (Some 503)) ([], []) JUndefined
     = (fst (getPrices (Rejected (Some 503)) []), (snd (getPrices (Rejected (Some 503)) []), []))
   \<and> parsePrices (Rejected None) ([[(''A'', JRef 1)], [(''price'', JNum 5)]], []) (JRef 0)
       = (Inl (NetworthError ''Invalid prices data provided''),
          ([[(''A'', JRef 1)], [(''price'', JNum 5)]], []))
   \<and> get_prop (snd (getPrices (Resolved (JRef 0)) [[(''A'', JRef 1)], [(''price'', JNum 5)]]))
        (JRef 2) ''a'' = JNum 5
   \<and> parsePrices (Rejected None) ([[(''a'', JNum 5)]], []) (JRef 0)
       = (Inr (JRef 0), ([[(''a'', JNum 5)]], []))"
proof -
  have low: "toLowerCase ''A'' = ''a''" "toLowerCase ''a'' = ''a''"
    by (simp_all add: toLowerCase_def lower_char_def)
  have r: "get_prop [[(''A'', JRef 1)], [(''price'', JNum 5)]] (JRef 1) ''price'' = JNum 5"
    by (simp add: obj_at_def)
  show ?thesis
    using r pathways [of JUndefined "Rejected (Some 503)" "[]" "[]" 0 "''A''" 1 "[]" "''A''" "JRef 1" "JNum 5"]
      pathways [of JUndefined "Rejected None" "[[(''A'', JRef 1)], [(''price'', JNum 5)]]" "[]" 0 "''A''" 1
        "[]" "''A''" "JRef 1" "JNum 5"]
      pathways [of JUndefined "Rejected None" "[[(''a'', JNum 5)]]" "[]" 0 "''a''" 1 "[]" "''a''" "JNum 5" "JNum 5"]
    by (simp add: low numeral_2_eq_2 del: get_prop.simps)
qed

text \<open>
  Claim C1, counterexample: the structure \<^verbatim>\<open>{"A": {"price": 5}}\<close> is rejected when the
  caller supplies it, and normalised to \<^verbatim>\<open>{"a": 5}\<close> when it is fetched.
\<close>

theorem pathways_differ:
  "parsePrices (Rejected None) ([[(''A'', JRef 1)], [(''price'', JNum 5)]], []) (JRef 0)
     = (Inl (NetworthError ''Invalid prices data provided''),
        ([[(''A'', JRef 1)], [(''price'', JNum 5)]], []))
   \<and> getPrices (Resolved (JRef 0)) [[(''A'', JRef 1)], [(''price'', JNum 5)]]
     = (Inr (JRef 2), [[(''A'', JRef 1)], [(''price'', JNum 5)], [(''a'', JNum 5)]])"
  by (simp add: parsePrices_def getPrices_def getPrices_try_def Object_entries_def obj_at_def
      firstKey_of_def prop_key_def js_not_def member_def toLowerCase_def lower_char_def assign_def)

subsection \<open>Rejection of a supplied structure\<close>

text \<open>
  Claim C2, evaluated on the code. The test \<^verbatim>\<open>!prices instanceof Object\<close> rejects
  nothing, so a non-empty string passes as a catalog, and a number or the empty object
  fails later with a \<^verbatim>\<open>TypeError\<close> at \<^verbatim>\<open>firstKey.toLowerCase()\<close> instead of the
  error "Invalid prices data provided".
\<close>

theorem parsePrices_accepts_non_objects:
  "parsePrices (Rejected None) ([], []) (JStr ''abc'') = (Inr (JStr ''abc''), ([], []))
   \<and> parsePrices (Rejected None) ([], []) (JNum 5) = (Inl TypeError, ([], []))
   \<and> parsePrices (Rejected None) ([[]], []) (JRef 0) = (Inl TypeError, ([[]], []))"
  by (simp add: parsePrices_def obj_at_def firstKey_of_def prop_key_def js_not_def
      toLowerCase_def lower_char_def dec.simps upt_rec)

text \<open>
  Claim C8. \<^verbatim>\<open>parsePrices\<close> throws "Invalid prices data provided" exactly when the
  supplied argument is truthy and the value under its first enumerated key is an object.
  The first disjunct of the test, \<^verbatim>\<open>!prices instanceof Object\<close>, is read as
  \<^verbatim>\<open>(!prices) instanceof Object\<close>: a boolean is never an object, so it never fires.
\<close>

theorem parsePrices_invalid_iff:
  "(fst (parsePrices net (h, g) prices) = Inl (NetworthError ''Invalid prices data provided'')
      \<longleftrightarrow> truthy prices
          \<and> (\<exists>k ks. Object_keys h prices = Inr (k # ks)
                \<and> instanceof_Object (get_prop h prices k)))
   \<and> \<not> instanceof_Object (js_not v)"
proof -
  have neg: "\<not> instanceof_Object (js_not w)" for w
    by (simp add: js_not_def)
  show ?thesis
  proof (cases "truthy prices")
    case False
    obtain r h' where gp: "getPrices net h = (r, h')"
      by (cases "getPrices net h")
    then have "r \<noteq> Inl (NetworthError ''Invalid prices data provided'')"
      using getPrices_not_NetworthError [of net h "''Invalid prices data provided''"] by simp
    then show ?thesis
      using False gp by (simp add: parsePrices_def neg)
  next
    case True
    then obtain ks where ks: "Object_keys h prices = Inr ks"
      by (cases prices) auto
    show ?thesis
    proof (cases ks)
      case Nil
      then show ?thesis
        using True ks no_keys_undefined [OF _ True, of h]
        by (simp add: parsePrices_def neg firstKey_of_def prop_key_def)
    next
      case (Cons k rest)
      then show ?thesis
        using True ks
        by (simp add: parsePrices_def neg firstKey_of_def prop_key_def)
    qed
  qed
qed

text \<open>
  Claim C8, witness: the structure \<^verbatim>\<open>{"A": {"price": 5}}\<close> is rejected, the number 5
  is not rejected with that error.
\<close>

theorem parsePrices_invalid_iff_witness:
  "fst (parsePrices (Rejected None) ([[(''A'', JRef 1)], [(''price'', JNum 5)]], []) (JRef 0))
     = Inl (NetworthError ''Invalid prices data provided'')
   \<and> fst (parsePrices (Rejected None) ([], []) (JNum 5))
     \<noteq> Inl (NetworthError ''Invalid prices data provided'')
   \<and> \<not> instanceof_Object (js_not (JNum 5))"
  using parsePrices_invalid_iff [of "Rejected None" "[[(''A'', JRef 1)], [(''price'', JNum 5)]]" "[]"
      "JRef 0" "JNum 5"]
    parsePrices_invalid_iff [of "Rejected None" "[]" "[]" "JNum 5" "JNum 5"]
  by (simp add: obj_at_def)

subsection \<open>Lowercasing the keys\<close>

text \<open>
  Claim C3, as the code has it. Only the first enumerated key decides whether the keys
  are lowercased. For a flat catalog whose first key is not lowercase, and every original
  key whose lowercased form is shared with no other key (and is not \<^verbatim>\<open>__proto__\<close>), a
  lookup of the lowercased key after normalisation resolves to the value of the original
  key, on the supplied pathway (in the supplied object) and on the fetched one (in a
  fresh catalog all of whose keys are lowercase).
\<close>

theorem lowercase_lookup:
  assumes "a < length h" and "h ! a = (k0, v0) # rest" and "k0 \<noteq> toLowerCase k0"
    and "\<not> instanceof_Object v0" and "distinct (map fst (h ! a))"
    and "(k, v) \<in> set (h ! a)"
    and "\<forall>k' \<in> set (map fst (h ! a)). toLowerCase k' = toLowerCase k \<longrightarrow> k' = k"
    and "toLowerCase k \<noteq> ''__proto__''"
  shows "fst (parsePrices net (h, g) (JRef a)) = Inr (JRef a)
       \<and> get_prop (fst (snd (parsePrices net (h, g) (JRef a)))) (JRef a) (toLowerCase k) = v
       \<and> fst (getPrices (Resolved (JRef a)) h) = Inr (JRef (length h))
       \<and> get_prop (snd (getPrices (Resolved (JRef a)) h)) (JRef (length h)) (toLowerCase k) = v
       \<and> (\<forall>k' \<in> set (map fst (obj_at (snd (getPrices (Resolved (JRef a)) h)) (length h))).
             k' = toLowerCase k')"
proof -
  have p: "parsePrices net (h, g) (JRef a) =
      (Inr (JRef a), (h[a := lower_loop (map fst (h ! a)) (h ! a)], global_ids (map fst (h ! a)) g))"
    by (rule parsePrices_mixed [OF assms(1-4)])
  have gp: "getPrices (Resolved (JRef a)) h =
      (Inr (JRef (length h)), h @ [lower_entries (h ! a) []])"
    by (rule getPrices_mixed [OF assms(1-5)])
  have l1: "map_of (lower_loop (map fst (h ! a)) (h ! a)) (toLowerCase k) = Some v"
    by (rule lower_loop_unique [OF assms(6) assms(5) assms(7) assms(8)])
  have l2: "map_of (lower_entries (h ! a) []) (toLowerCase k) = Some v"
    by (rule lower_entries_unique [OF assms(6) assms(5) assms(7) assms(8)])
  have c1: "get_prop (fst (snd (parsePrices net (h, g) (JRef a)))) (JRef a) (toLowerCase k) = v"
    using assms(1) l1 by (simp add: p obj_at_def)
  have c2: "get_prop (snd (getPrices (Resolved (JRef a)) h)) (JRef (length h)) (toLowerCase k) = v"
    using l2 by (simp add: gp obj_at_def)
  have c3: "\<forall>k' \<in> set (map fst (obj_at (snd (getPrices (Resolved (JRef a)) h)) (length h))).
             k' = toLowerCase k'"
    using lower_entries_keys_lower [of _ "h ! a"] by (simp add: gp obj_at_def)
  show ?thesis
    using c1 c2 c3 by (simp add: p gp)
qed

text \<open>
  Claim C3, witness: the catalog \<^verbatim>\<open>{"SKYBLOCK_MENU": 5}\<close>; the lookup of
  \<^verbatim>\<open>skyblock_menu\<close> resolves to 5 on both pathways.
\<close>

theorem lowercase_lookup_witness:
  "get_prop (fst (snd (parsePrices (Rejected None) ([[(''SKYBLOCK_MENU'', JNum 5)]], []) (JRef 0))))
      (JRef 0) ''skyblock_menu'' = JNum 5
   \<and> get_prop (snd (getPrices (Resolved (JRef 0)) [[(''SKYBLOCK_MENU'', JNum 5)]])) (JRef 1)
      ''skyblock_menu'' = JNum 5"
proof -
  have low: "toLowerCase ''SKYBLOCK_MENU'' = ''skyblock_menu''"
    by (simp add: toLowerCase_def lower_char_def)
  show ?thesis
    using lowercase_lookup [of 0 "[[(''SKYBLOCK_MENU'', JNum 5)]]" "''SKYBLOCK_MENU''" "JNum 5" "[]"
        "''SKYBLOCK_MENU''" "JNum 5" "Rejected None" "[]"]
    by (simp add: low)
qed

text \<open>
  Claim C3, counterexample: in \<^verbatim>\<open>{"a": 1, "B": 2}\<close> some key is not lowercase, yet the
  first one is, so the catalog is returned as it is and \<^verbatim>\<open>b\<close> resolves to nothing.
\<close>

theorem lowercase_first_key_only:
  "get_prop (fst (snd (parsePrices (Rejected None) ([[(''a'', JNum 1), (''B'', JNum 2)]], []) (JRef 0))))
      (JRef 0) ''b'' = JUndefined
   \<and> parsePrices (Rejected None) ([[(''a'', JNum 1), (''B'', JNum 2)]], []) (JRef 0)
      = (Inr (JRef 0), ([[(''a'', JNum 1), (''B'', JNum 2)]], []))"
  by (simp add: parsePrices_def obj_at_def firstKey_of_def prop_key_def js_not_def
      toLowerCase_def lower_char_def)

text \<open>
  Claim C9, as the code has it. For a supplied catalog whose first enumerated key is
  not lowercase and whose first value is not an object, \<^verbatim>\<open>parsePrices\<close> returns the
  object it was given. Every original key is still there, together with its lowercased
  form (unless that is \<^verbatim>\<open>__proto__\<close>), and every key that is not lowercase keeps its
  value. The entry under a lowercased name other than \<^verbatim>\<open>__proto__\<close> holds the value of
  the last original key that is not lowercase and has that lowercased form, also when the
  catalog has that lowercase name as an original key, wherever it stands. A lowercase
  original key to which no other key lowercases keeps its value.
\<close>

theorem parsePrices_both_casings:
  assumes "a < length h" and "h ! a = (k0, v0) # rest" and "k0 \<noteq> toLowerCase k0"
    and "\<not> instanceof_Object v0"
  shows "fst (parsePrices net (h, g) (JRef a)) = Inr (JRef a)
       \<and> (\<forall>k \<in> set (map fst (h ! a)).
             k \<in> set (map fst (fst (snd (parsePrices net (h, g) (JRef a))) ! a))
             \<and> (toLowerCase k \<noteq> ''__proto__'' \<longrightarrow>
                  toLowerCase k \<in> set (map fst (fst (snd (parsePrices net (h, g) (JRef a))) ! a))))
       \<and> (\<forall>k \<in> set (map fst (h ! a)). k \<noteq> toLowerCase k \<longrightarrow>
             map_of (fst (snd (parsePrices net (h, g) (JRef a))) ! a) k = map_of (h ! a) k)
       \<and> (\<forall>xs k ys. map fst (h ! a) = xs @ k # ys \<and> k \<noteq> toLowerCase k
             \<and> (\<forall>k' \<in> set ys. k' \<noteq> toLowerCase k' \<longrightarrow> toLowerCase k' \<noteq> toLowerCase k)
             \<and> toLowerCase k \<noteq> ''__proto__''
             \<longrightarrow> map_of (fst (snd (parsePrices net (h, g) (JRef a))) ! a) (toLowerCase k)
                   = map_of (h ! a) k)
       \<and> (\<forall>k \<in> set (map fst (h ! a)). k = toLowerCase k
             \<and> (\<forall>k' \<in> set (map fst (h ! a)). k' \<noteq> toLowerCase k' \<longrightarrow> toLowerCase k' \<noteq> k)
             \<longrightarrow> map_of (fst (snd (parsePrices net (h, g) (JRef a))) ! a) k = map_of (h ! a) k)"
proof -
  define ob where "ob = h ! a"
  define ob' where "ob' = lower_loop (map fst ob) ob"
  have p: "parsePrices net (h, g) (JRef a) = (Inr (JRef a), (h[a := ob'], global_ids (map fst ob) g))"
    unfolding ob'_def ob_def by (rule parsePrices_mixed [OF assms])
  have s: "fst (snd (parsePrices net (h, g) (JRef a))) ! a = ob'"
    using assms(1) by (simp add: p)
  have c1: "\<forall>k \<in> set (map fst ob). k \<in> set (map fst ob')
        \<and> (toLowerCase k \<noteq> ''__proto__'' \<longrightarrow> toLowerCase k \<in> set (map fst ob'))"
    using lower_loop_keys_mono [of ob "map fst ob"] lower_loop_keys_lower [of _ "map fst ob" ob]
    unfolding ob'_def by blast
  have c2: "\<forall>k \<in> set (map fst ob). k \<noteq> toLowerCase k \<longrightarrow> map_of ob' k = map_of ob k"
    using lower_loop_keeps_mixed [of "map fst ob" ob] unfolding ob'_def by simp
  have c3: "\<forall>xs k ys. map fst ob = xs @ k # ys \<and> k \<noteq> toLowerCase k
             \<and> (\<forall>k' \<in> set ys. k' \<noteq> toLowerCase k' \<longrightarrow> toLowerCase k' \<noteq> toLowerCase k)
             \<and> toLowerCase k \<noteq> ''__proto__''
             \<longrightarrow> map_of ob' (toLowerCase k) = map_of ob k"
  proof (intro allI impI, elim conjE)
    fix xs k ys
    assume eq: "map fst ob = xs @ k # ys" and m: "k \<noteq> toLowerCase k"
      and l: "\<forall>k' \<in> set ys. k' \<noteq> toLowerCase k' \<longrightarrow> toLowerCase k' \<noteq> toLowerCase k"
      and np: "toLowerCase k \<noteq> ''__proto__''"
    have sub: "set (xs @ k # ys) \<subseteq> set (map fst ob)"
      by (simp only: eq [symmetric] subset_refl)
    show "map_of ob' (toLowerCase k) = map_of ob k"
      unfolding ob'_def eq by (rule lower_loop_last_wins [OF sub m l np])
  qed
  have c4: "\<forall>k \<in> set (map fst ob). k = toLowerCase k
             \<and> (\<forall>k' \<in> set (map fst ob). k' \<noteq> toLowerCase k' \<longrightarrow> toLowerCase k' \<noteq> k)
             \<longrightarrow> map_of ob' k = map_of ob k"
    unfolding ob'_def using lower_loop_lowercase_kept [of _ ob] by blast
  show ?thesis
    unfolding s using c1 c2 c3 c4 by (simp add: p ob_def [symmetric])
qed

text \<open>
  Claim C9, witness: the catalog \<^verbatim>\<open>{"AB": 1, "Ab": 2, "ab": 7, "c": 3}\<close>; \<^verbatim>\<open>AB\<close>
  keeps 1, \<^verbatim>\<open>ab\<close> ends with 2, the value of the last key of that lowercased form that
  is not lowercase, and \<^verbatim>\<open>c\<close> keeps 3.
\<close>

theorem parsePrices_both_casings_witness:
  "fst (parsePrices (Rejected None)
      ([[(''AB'', JNum 1), (''Ab'', JNum 2), (''ab'', JNum 7), (''c'', JNum 3)]], []) (JRef 0))
     = Inr (JRef 0)
   \<and> map_of (fst (snd (parsePrices (Rejected None)
         ([[(''AB'', JNum 1), (''Ab'', JNum 2), (''ab'', JNum 7), (''c'', JNum 3)]], []) (JRef 0))) ! 0)
       ''AB'' = Some (JNum 1)
   \<and> map_of (fst (snd (parsePrices (Rejected None)
         ([[(''AB'', JNum 1), (''Ab'', JNum 2), (''ab'', JNum 7), (''c'', JNum 3)]], []) (JRef 0))) ! 0)
       ''ab'' = Some (JNum 2)
   \<and> map_of (fst (snd (parsePrices (Rejected None)
         ([[(''AB'', JNum 1), (''Ab'', JNum 2), (''ab'', JNum 7), (''c'', JNum 3)]], []) (JRef 0))) ! 0)
       ''c'' = Some (JNum 3)"
proof -
  let ?h = "[[(''AB'', JNum 1), (''Ab'', JNum 2), (''ab'', JNum 7), (''c'', JNum 3)]]"
  let ?R = "parsePrices (Rejected None) (?h, []) (JRef 0)"
  have low: "toLowerCase ''AB'' = ''ab''" "toLowerCase ''Ab'' = ''ab''" "toLowerCase ''ab'' = ''ab''"
    "toLowerCase ''c'' = ''c''"
    by (simp_all add: toLowerCase_def lower_char_def)
  have t: "fst ?R = Inr (JRef 0)
       \<and> (\<forall>k \<in> set (map fst (?h ! 0)). k \<noteq> toLowerCase k \<longrightarrow>
             map_of (fst (snd ?R) ! 0) k = map_of (?h ! 0) k)
       \<and> (\<forall>xs k ys. map fst (?h ! 0) = xs @ k # ys \<and> k \<noteq> toLowerCase k
             \<and> (\<forall>k' \<in> set ys. k' \<noteq> toLowerCase k' \<longrightarrow> toLowerCase k' \<noteq> toLowerCase k)
             \<and> toLowerCase k \<noteq> ''__proto__''
             \<longrightarrow> map_of (fst (snd ?R) ! 0) (toLowerCase k) = map_of (?h ! 0) k)
       \<and> (\<forall>k \<in> set (map fst (?h ! 0)). k = toLowerCase k
             \<and> (\<forall>k' \<in> set (map fst (?h ! 0)). k' \<noteq> toLowerCase k' \<longrightarrow> toLowerCase k' \<noteq> k)
             \<longrightarrow> map_of (fst (snd ?R) ! 0) k = map_of (?h ! 0) k)"
    using parsePrices_both_casings [of 0 ?h "''AB''" "JNum 1"
        "[(''Ab'', JNum 2), (''ab'', JNum 7), (''c'', JNum 3)]" "Rejected None" "[]"] low
    by simp
  from t have t1: "fst ?R = Inr (JRef 0)"
    by (rule conjunct1)
  from t have t2: "map_of (fst (snd ?R) ! 0) ''AB'' = map_of (?h ! 0) ''AB''"
    using low by simp
  from t have "map fst (?h ! 0) = [''AB''] @ ''Ab'' # [''ab'', ''c''] \<and> ''Ab'' \<noteq> toLowerCase ''Ab''
             \<and> (\<forall>k' \<in> set [''ab'', ''c'']. k' \<noteq> toLowerCase k' \<longrightarrow> toLowerCase k' \<noteq> toLowerCase ''Ab'')
             \<and> toLowerCase ''Ab'' \<noteq> ''__proto__''
             \<longrightarrow> map_of (fst (snd ?R) ! 0) (toLowerCase ''Ab'') = map_of (?h ! 0) ''Ab''"
    by blast
  then have t3: "map_of (fst (snd ?R) ! 0) ''ab'' = map_of (?h ! 0) ''Ab''"
    using low by simp
  from t have t4: "map_of (fst (snd ?R) ! 0) ''c'' = map_of (?h ! 0) ''c''"
    using low by simp
  show ?thesis
    using t1 t2 t3 t4 by simp
qed

text \<open>
  Claim C9, counterexample: in \<^verbatim>\<open>{"AB": 1, "Ab": 2}\<close> the entry under \<^verbatim>\<open>ab\<close> ends
  with the value 2, not with the value 1 of the original key \<^verbatim>\<open>AB\<close>.
\<close>

theorem parsePrices_collision:
  "parsePrices (Rejected None) ([[(''AB'', JNum 1), (''Ab'', JNum 2)]], []) (JRef 0)
     = (Inr (JRef 0),
        ([[(''AB'', JNum 1), (''Ab'', JNum 2), (''ab'', JNum 2)]], [(''id'', JStr ''Ab'')]))"
  by (simp add: parsePrices_def obj_at_def firstKey_of_def prop_key_def js_not_def
      toLowerCase_def lower_char_def assign_def)

subsection \<open>What normalisation changes\<close>




subsection \<open>Idempotence\<close>

text \<open>
  Claim C5. Normalising a catalog that is already canonical (not empty, every key
  lowercase, every value a bare number) returns that catalog and leaves the heap as it
  was, on the supplied pathway and on the fetched one.
\<close>

theorem normalize_canonical:
  "a < length h \<Longrightarrow> canonical (h ! a) \<Longrightarrow>
   parsePrices net (h, g) (JRef a) = (Inr (JRef a), (h, g))
   \<and> getPrices (Resolved (JRef a)) h = (Inr (JRef a), h)"
proof -
  assume a: "a < length h" and c: "canonical (h ! a)"
  then obtain k v rest where ob: "h ! a = (k, v) # rest"
    by (cases "h ! a") (auto simp: canonical_def)
  with c have k: "k = toLowerCase k" and v: "is_price v"
    by (auto simp: canonical_def)
  from v have nv: "\<not> instanceof_Object v"
    by (cases v) (auto simp: is_price_def)
  show ?thesis
    using a ob k nv
    by (simp add: parsePrices_def getPrices_def getPrices_try_def obj_at_def firstKey_of_def
        prop_key_def js_not_def)
qed

text \<open>
  Claim C5, witness: the catalog \<^verbatim>\<open>{"skyblock_menu": 5}\<close>.
\<close>

theorem normalize_canonical_witness:
  "parsePrices (Rejected None) ([[(''skyblock_menu'', JNum 5)]], []) (JRef 0)
     = (Inr (JRef 0), ([[(''skyblock_menu'', JNum 5)]], []))
   \<and> getPrices (Resolved (JRef 0)) [[(''skyblock_menu'', JNum 5)]]
     = (Inr (JRef 0), [[(''skyblock_menu'', JNum 5)]])"
proof -
  have c: "canonical ([[(''skyblock_menu'', JNum 5)]] ! 0)"
    by (simp add: canonical_def is_price_def toLowerCase_def lower_char_def)
  show ?thesis
    using normalize_canonical [of 0 "[[(''skyblock_menu'', JNum 5)]]" "Rejected None" "[]", OF _ c]
    by simp
qed

subsection \<open>The item guard\<close>

text \<open>
  Claim C6, evaluated on the code. The item \<^verbatim>\<open>{"exp": 0}\<close> has an experience field
  and a valid catalog is supplied, yet the call throws "Invalid item provided": the
  guard \<^verbatim>\<open>!item?.tag && !item?.exp\<close> takes the number zero for an absent field.
\<close>

theorem getItemNetworth_rejects_zero_exp:
  "has_field [[(''exp'', JNum 0)], [(''a'', JNum 5)], [(''prices'', JRef 1)]] (JRef 0) ''exp''
   \<and> getItemNetworth no_valuation (Rejected None)
        ([[(''exp'', JNum 0)], [(''a'', JNum 5)], [(''prices'', JRef 1)]], []) (JRef 0) (JRef 2)
     = (Inl (NetworthError ''Invalid item provided''),
        ([[(''exp'', JNum 0)], [(''a'', JNum 5)], [(''prices'', JRef 1)]], []))"
  by (simp add: getItemNetworth_def opt_member_def obj_at_def has_field_def)

text \<open>
  Claim C10. \<^verbatim>\<open>getItemNetworth\<close> tests the fields \<^verbatim>\<open>tag\<close> and \<^verbatim>\<open>exp\<close> by truthiness:
  an item on which both are present but falsy (an empty string, zero) is rejected with
  "Invalid item provided" although both fields exist.
\<close>

theorem getItemNetworth_falsy_fields:
  "a < length h \<Longrightarrow> map_of (h ! a) ''tag'' = Some t \<Longrightarrow> map_of (h ! a) ''exp'' = Some e
   \<Longrightarrow> \<not> truthy t \<Longrightarrow> \<not> truthy e
   \<Longrightarrow> getItemNetworth calc net (h, g) (JRef a) options
         = (Inl (NetworthError ''Invalid item provided''), (h, g))"
  by (simp add: getItemNetworth_def opt_member_def obj_at_def)

text \<open>
  Claim C10, witness: the item \<^verbatim>\<open>{"tag": "", "exp": 0}\<close>.
\<close>

theorem getItemNetworth_falsy_fields_witness:
  "getItemNetworth no_valuation (Rejected None) ([[(''tag'', JStr ''''), (''exp'', JNum 0)]], [])
     (JRef 0) JUndefined
     = (Inl (NetworthError ''Invalid item provided''), ([[(''tag'', JStr ''''), (''exp'', JNum 0)]], []))"
  using getItemNetworth_falsy_fields [of 0 "[[(''tag'', JStr ''''), (''exp'', JNum 0)]]" "JStr ''''" "JNum 0"
     no_valuation "Rejected None" "[]" JUndefined]
  by simp

subsection \<open>A failed fetch\<close>

text \<open>
  Claim C7. When the fetch is rejected, \<^verbatim>\<open>getPrices\<close> throws a \<^verbatim>\<open>PricesError\<close> whose
  message ends with the status code of the response when the error carries one (503 for
  an HTTP 503) and with "Unknown" when it carries none. A status of the HTTP protocol is
  a positive number; the value 0, which \<^verbatim>\<open>||\<close> would treat as absent, is no status.
\<close>

theorem getPrices_fetch_failure:
  "st \<noteq> Some 0 \<Longrightarrow>
   getPrices (Rejected st) h =
     (Inl (PricesError (''Failed to retrieve prices with status code ''
            @ (case st of Some n \<Rightarrow> dec n | None \<Rightarrow> ''Unknown''))), h)"
  by (cases st) (simp_all add: getPrices_def failure_message_def status_text_def)

text \<open>
  Claim C7, witness: a response with status 503, and an error without a response.
\<close>

theorem getPrices_fetch_failure_witness:
  "getPrices (Rejected (Some 503)) [] =
     (Inl (PricesError ''Failed to retrieve prices with status code 503''), [])
   \<and> getPrices (Rejected None) [] =
     (Inl (PricesError ''Failed to retrieve prices with status code Unknown''), [])"
  using getPrices_fetch_failure [of "Some 503" "[]"] getPrices_fetch_failure [of None "[]"]
  by (simp add: dec.simps)

end
